theory Spec2Isabelle
  imports Main
begin

section \<open>The channel pool of package pool (channel.go, conn.go, pool.go)\<close>

text \<open>
  A sequential shallow embedding of \<^verbatim>\<open>channelPool\<close> and \<^verbatim>\<open>PoolRconn\<close>.
  Every method becomes a function from the state it reads to the state it leaves,
  together with what it returns. The mutex \<^verbatim>\<open>mu\<close> serialises the accesses to the
  fields; in a sequential run it has no effect and is left out.
\<close>

subsection \<open>Errors and outcomes\<close>

text \<open>
  The \<^verbatim>\<open>error\<close> values of the package: \<^verbatim>\<open>ErrClosed\<close> (pool.go), the two
  \<^verbatim>\<open>errors.New\<close> of channel.go, the \<^verbatim>\<open>fmt.Errorf\<close> that wraps a factory error
  during the initial fill, and whatever error a factory or a connection hands back.
  A nil \<^verbatim>\<open>error\<close> is \<open>None\<close>.
\<close>

datatype error =
    ErrClosed
  | ErrInvalidCapacity
  | ErrNilRconn
  | ErrFill error
  | ErrExternal string

text \<open>
  A Go call returns, panics (a call of a nil function, a method call on a nil
  interface) or blocks for ever (a send on a full channel with nobody receiving).
\<close>

datatype 'a outcome = Returns 'a | Panics | Blocks

subsection \<open>Connections and the factory: the external collaborators\<close>

text \<open>
  An \<^verbatim>\<open>RpcAble\<close> interface value is nil (\<open>None\<close>) or a connection, named by a
  number. The pool uses one method of a connection only, \<^verbatim>\<open>Close() error\<close>. The
  world records each invocation of it in \<open>closed\<close> (oldest first); what the
  invocation returns is the connection's business: \<open>closer\<close> gives it from the
  connection and the invocations so far. \<open>made\<close> counts the factory invocations.
\<close>

type_synonym RpcAble = "nat option"

record world =
  closer :: "nat \<Rightarrow> nat list \<Rightarrow> error option"
  closed :: "nat list"
  made :: nat

text \<open>\<^verbatim>\<open>rconn.Close()\<close> on a non-nil connection.\<close>

definition RpcAble_Close :: "nat \<Rightarrow> world \<Rightarrow> error option \<times> world" where
  "RpcAble_Close x w = (closer w x (closed w), w\<lparr>closed := closed w @ [x]\<rparr>)"

text \<open>
  \<^verbatim>\<open>type Factory func() (RpcAble, error)\<close>: the result of an invocation, given the
  number of invocations before it. A nil \<^verbatim>\<open>Factory\<close> is \<open>None\<close>.
\<close>

type_synonym Factory = "nat \<Rightarrow> RpcAble \<times> error option"

subsection \<open>The buffered channel\<close>

text \<open>
  \<^verbatim>\<open>chan RpcAble\<close> made by \<^verbatim>\<open>make(chan RpcAble, maxCap)\<close>: the queue of buffered
  values (the head is received next) and the capacity. The only \<^verbatim>\<open>close(rconns)\<close>
  of the package is in \<^verbatim>\<open>Close\<close>, after the pool has dropped its reference, so a
  channel that the pool still refers to is never a closed one.
\<close>

record chan =
  buf :: "RpcAble list"
  cap :: nat

text \<open>\<^verbatim>\<open>select { case rconn := <-rconns: ... default: ... }\<close>: \<open>None\<close> is the default branch.\<close>

definition recv :: "chan \<Rightarrow> (RpcAble \<times> chan) option" where
  "recv ch = (case buf ch of [] \<Rightarrow> None | r # rest \<Rightarrow> Some (r, ch\<lparr>buf := rest\<rparr>))"

text \<open>\<^verbatim>\<open>select { case c.rconns <- rconn: ... default: ... }\<close>: \<open>None\<close> is the default branch.\<close>

definition send :: "chan \<Rightarrow> RpcAble \<Rightarrow> chan option" where
  "send ch r = (if length (buf ch) < cap ch then Some (ch\<lparr>buf := buf ch @ [r]\<rparr>) else None)"

subsection \<open>channelPool\<close>

record channelPool =
  rconns :: "chan option"
  factory :: "Factory option"

definition getRconns :: "channelPool \<Rightarrow> chan option" where
  "getRconns c = rconns c"

text \<open>
  \<^verbatim>\<open>Len\<close>: \<^verbatim>\<open>len\<close> of a nil channel is 0. The Go result is an \<^verbatim>\<open>int\<close> that is
  never negative, here a natural number.
\<close>

definition Len :: "channelPool \<Rightarrow> nat" where
  "Len c = (case getRconns c of None \<Rightarrow> 0 | Some ch \<Rightarrow> length (buf ch))"

text \<open>
  \<^verbatim>\<open>for rconn := range rconns { rconn.Close() }\<close> on the closed channel: each buffered
  value is received in turn and closed, its error dropped. A nil value has no
  \<^verbatim>\<open>Close\<close> to call: the method call panics.
\<close>

fun drain :: "RpcAble list \<Rightarrow> world \<Rightarrow> world outcome" where
  "drain [] w = Returns w"
| "drain (None # rs) w = Panics"
| "drain (Some x # rs) w = drain rs (snd (RpcAble_Close x w))"

definition Close :: "channelPool \<Rightarrow> world \<Rightarrow> (channelPool \<times> world) outcome" where
  "Close c w =
     (let rconns0 = rconns c;
          c' = c\<lparr>rconns := None, factory := None\<rparr>
      in case rconns0 of
           None \<Rightarrow> Returns (c', w)
         | Some ch \<Rightarrow>
             (case drain (buf ch) w of
                Returns w' \<Rightarrow> Returns (c', w')
              | Panics \<Rightarrow> Panics
              | Blocks \<Rightarrow> Blocks))"

subsection \<open>PoolRconn (conn.go)\<close>

text \<open>
  The handle that \<^verbatim>\<open>Get\<close> returns. Its back-reference \<^verbatim>\<open>c\<close> is set by
  \<^verbatim>\<open>wrapRconn\<close> to the pool that made it; the state holds one pool, and \<^verbatim>\<open>c\<close> is
  that pool. \<^verbatim>\<open>Close\<close> has a value receiver and leaves the handle as it is.
\<close>

record PoolRconn =
  RpcAble :: RpcAble
  unusable :: bool

definition wrapRconn :: "RpcAble \<Rightarrow> PoolRconn" where
  "wrapRconn rconn = \<lparr>RpcAble = rconn, unusable = False\<rparr>"

definition MarkUnusable :: "PoolRconn \<Rightarrow> PoolRconn" where
  "MarkUnusable p = p\<lparr>unusable := True\<rparr>"

subsection \<open>Get and put\<close>

definition Get ::
  "channelPool \<Rightarrow> world \<Rightarrow> ((PoolRconn option \<times> error option) \<times> channelPool \<times> world) outcome" where
  "Get c w =
     (case getRconns c of
        None \<Rightarrow> Returns ((None, Some ErrClosed), c, w)
      | Some ch \<Rightarrow>
          (case recv ch of
             Some (rconn, ch') \<Rightarrow>
               (if rconn = None
                then Returns ((None, Some ErrClosed), c\<lparr>rconns := Some ch'\<rparr>, w)
                else Returns ((Some (wrapRconn rconn), None), c\<lparr>rconns := Some ch'\<rparr>, w))
           | None \<Rightarrow>
               (case factory c of
                  None \<Rightarrow> Panics
                | Some f \<Rightarrow>
                    (case f (made w) of
                       (rconn, err) \<Rightarrow>
                         (if err \<noteq> None
                          then Returns ((None, err), c, w\<lparr>made := made w + 1\<rparr>)
                          else Returns ((Some (wrapRconn rconn), None), c,
                                        w\<lparr>made := made w + 1\<rparr>))))))"

definition put :: "RpcAble \<Rightarrow> channelPool \<Rightarrow> world \<Rightarrow> error option \<times> channelPool \<times> world" where
  "put rconn c w =
     (case rconn of
        None \<Rightarrow> (Some ErrNilRconn, c, w)
      | Some x \<Rightarrow>
          (case rconns c of
             None \<Rightarrow> (case RpcAble_Close x w of (e, w') \<Rightarrow> (e, c, w'))
           | Some ch \<Rightarrow>
               (case send ch rconn of
                  Some ch' \<Rightarrow> (None, c\<lparr>rconns := Some ch'\<rparr>, w)
                | None \<Rightarrow> (case RpcAble_Close x w of (e, w') \<Rightarrow> (e, c, w')))))"

definition PoolRconn_Close :: "PoolRconn \<Rightarrow> channelPool \<Rightarrow> world \<Rightarrow> error option \<times> channelPool \<times> world" where
  "PoolRconn_Close p c w =
     (if unusable p
      then (case RpcAble p of
              Some x \<Rightarrow> (case RpcAble_Close x w of (e, w') \<Rightarrow> (e, c, w'))
            | None \<Rightarrow> (None, c, w))
      else put (RpcAble p) c w)"

subsection \<open>NewChannelPool\<close>

text \<open>
  The capacities are Go \<^verbatim>\<open>int\<close>s that the code compares and counts up to, here
  integers. The loop \<^verbatim>\<open>for i := 0; i < initialCap; i++\<close>: a nil factory panics
  when called; a factory error shuts the new pool down (which closes what the loop
  has made so far) and is returned wrapped; the send \<^verbatim>\<open>c.rconns <- rconn\<close> is a
  plain one, which blocks on a full (or nil) channel.
\<close>

function fill ::
  "int \<Rightarrow> int \<Rightarrow> Factory option \<Rightarrow> channelPool \<Rightarrow> world \<Rightarrow>
     ((channelPool option \<times> error option) \<times> world) outcome" where
  "fill i initialCap fo c w =
     (if i < initialCap
      then (case fo of
              None \<Rightarrow> Panics
            | Some f \<Rightarrow>
                (case f (made w) of
                   (rconn, Some e) \<Rightarrow>
                     (case Close c (w\<lparr>made := made w + 1\<rparr>) of
                        Returns (c', w') \<Rightarrow> Returns ((None, Some (ErrFill e)), w')
                      | Panics \<Rightarrow> Panics
                      | Blocks \<Rightarrow> Blocks)
                 | (rconn, None) \<Rightarrow>
                     (case rconns c of
                        None \<Rightarrow> Blocks
                      | Some ch \<Rightarrow>
                          (if length (buf ch) < cap ch
                           then fill (i + 1) initialCap fo
                                  (c\<lparr>rconns := Some (ch\<lparr>buf := buf ch @ [rconn]\<rparr>)\<rparr>)
                                  (w\<lparr>made := made w + 1\<rparr>)
                           else Blocks))))
      else Returns ((Some c, None), w))"
  by pat_completeness auto
termination
  by (relation "measure (\<lambda>(i, initialCap, fo, c, w). nat (initialCap - i))") auto

declare fill.simps [simp del]

definition NewChannelPool ::
  "int \<Rightarrow> int \<Rightarrow> Factory option \<Rightarrow> world \<Rightarrow>
     ((channelPool option \<times> error option) \<times> world) outcome" where
  "NewChannelPool initialCap maxCap fo w =
     (if initialCap < 0 \<or> maxCap \<le> 0 \<or> initialCap > maxCap
      then Returns ((None, Some ErrInvalidCapacity), w)
      else fill 0 initialCap fo
             \<lparr>rconns = Some \<lparr>buf = [], cap = nat maxCap\<rparr>, factory = fo\<rparr> w)"

subsection \<open>Runs of operations\<close>

text \<open>
  What a caller can do with a pool: \<^verbatim>\<open>Get\<close>, \<^verbatim>\<open>Close\<close> of the pool, \<^verbatim>\<open>Close\<close>
  of a handle (any handle: whatever it wraps, marked unusable or not), and, inside
  the package, \<^verbatim>\<open>put\<close> with any argument.
\<close>

datatype op = OpGet | OpPut RpcAble | OpHandleClose PoolRconn | OpClose

fun step :: "op \<Rightarrow> channelPool \<Rightarrow> world \<Rightarrow> (channelPool \<times> world) outcome" where
  "step OpGet c w =
     (case Get c w of
        Returns (r, c', w') \<Rightarrow> Returns (c', w')
      | Panics \<Rightarrow> Panics
      | Blocks \<Rightarrow> Blocks)"
| "step (OpPut rconn) c w = (case put rconn c w of (e, c', w') \<Rightarrow> Returns (c', w'))"
| "step (OpHandleClose p) c w = (case PoolRconn_Close p c w of (e, c', w') \<Rightarrow> Returns (c', w'))"
| "step OpClose c w = Close c w"

fun run :: "op list \<Rightarrow> channelPool \<Rightarrow> world \<Rightarrow> (channelPool \<times> world) outcome" where
  "run [] c w = Returns (c, w)"
| "run (a # as) c w =
     (case step a c w of
        Returns (c', w') \<Rightarrow> run as c' w'
      | Panics \<Rightarrow> Panics
      | Blocks \<Rightarrow> Blocks)"

subsection \<open>Invariants and counting\<close>

text \<open>
  A pool made with \<^verbatim>\<open>maxCap\<close> is shut down, or its channel has capacity
  \<^verbatim>\<open>maxCap\<close> and holds no more values than that.
\<close>

definition within :: "int \<Rightarrow> channelPool \<Rightarrow> bool" where
  "within maxCap c =
     (case rconns c of
        None \<Rightarrow> True
      | Some ch \<Rightarrow> length (buf ch) \<le> cap ch \<and> int (cap ch) = maxCap)"

text \<open>A pool is shut down, or no value in its buffer is nil.\<close>

definition no_nil :: "channelPool \<Rightarrow> bool" where
  "no_nil c = (case rconns c of None \<Rightarrow> True | Some ch \<Rightarrow> None \<notin> set (buf ch))"

text \<open>
  How often \<^verbatim>\<open>Close\<close> was invoked on connection \<open>x\<close> between world \<open>w\<close> and the
  later world \<open>w'\<close>.
\<close>

definition closes :: "nat \<Rightarrow> world \<Rightarrow> world \<Rightarrow> nat" where
  "closes x w w' = count_list (drop (length (closed w)) (closed w')) x"

text \<open>The connections among the values of a buffer, in the order of the buffer.\<close>

fun conns :: "RpcAble list \<Rightarrow> nat list" where
  "conns [] = []"
| "conns (None # rs) = conns rs"
| "conns (Some x # rs) = x # conns rs"

subsection \<open>Sample collaborators\<close>

text \<open>
  A world whose connections behave like \<^verbatim>\<open>rpc.Client\<close>: the first \<^verbatim>\<open>Close\<close> of a
  connection returns nil, a later one an error. A factory that mints a new
  connection at each call, and one that fails at each call.
\<close>

definition ex_world :: world where
  "ex_world =
     \<lparr>closer = (\<lambda>x h. if x \<in> set h then Some (ErrExternal ''connection is shut down'') else None),
      closed = [], made = 0\<rparr>"

definition ex_factory :: Factory where
  "ex_factory n = (Some n, None)"



section \<open>Properties\<close>

subsection \<open>Shutdown\<close>

lemma drain_Returns:
  "drain rs w = Returns w' \<Longrightarrow> None \<notin> set rs \<and> w' = w\<lparr>closed := closed w @ conns rs\<rparr>"
proof (induction rs arbitrary: w)
  case Nil
  then show ?case by simp
next
  case (Cons r rs)
  show ?case
  proof (cases r)
    case None
    with Cons.prems show ?thesis by simp
  next
    case (Some x)
    with Cons.prems have "drain rs (snd (RpcAble_Close x w)) = Returns w'" by simp
    from Cons.IH [OF this] Some show ?thesis
      by (simp add: RpcAble_Close_def)
  qed
qed

lemma drain_not_Blocks: "drain rs w \<noteq> Blocks"
  by (induction rs w rule: drain.induct) simp_all

text \<open>The drain returns exactly when no buffered value is nil.\<close>

lemma drain_no_nil:
  "None \<notin> set rs \<Longrightarrow> drain rs w = Returns (w\<lparr>closed := closed w @ conns rs\<rparr>)"
proof (induction rs arbitrary: w)
  case Nil
  then show ?case by simp
next
  case (Cons r rs)
  then obtain x where r: "r = Some x" by (cases r) auto
  from Cons.prems have "None \<notin> set rs" by simp
  from Cons.IH [OF this] r show ?case by (simp add: RpcAble_Close_def)
qed

lemma Close_Returns:
  assumes "Close c w = Returns (c', w')"
  shows "c' = c\<lparr>rconns := None, factory := None\<rparr>"
    and "rconns c = None \<Longrightarrow> w' = w"
    and "rconns c = Some ch \<Longrightarrow> None \<notin> set (buf ch) \<and> w' = w\<lparr>closed := closed w @ conns (buf ch)\<rparr>"
  using assms
  by (auto simp add: Close_def Let_def split: option.splits outcome.splits dest: drain_Returns)

lemma Close_not_Blocks: "Close c w \<noteq> Blocks"
  by (simp add: Close_def Let_def drain_not_Blocks split: option.splits outcome.splits)

lemma Close_no_nil_Returns:
  "rconns c = Some ch \<Longrightarrow> None \<notin> set (buf ch) \<Longrightarrow>
     Close c w = Returns (c\<lparr>rconns := None, factory := None\<rparr>, w\<lparr>closed := closed w @ conns (buf ch)\<rparr>)"
  by (simp add: Close_def drain_no_nil)

lemma count_conns: "count_list (conns rs) x = count_list rs (Some x)"
  by (induction rs rule: conns.induct) simp_all

lemma Len_closed: "rconns c = None \<Longrightarrow> Len c = 0"
  by (simp add: Len_def getRconns_def)

text \<open>
  Claim C3, as amended. When the first \<^verbatim>\<open>Close\<close> of an open pool returns, the
  shutdown has invoked the underlying \<^verbatim>\<open>Close\<close> once for each value that was
  idle in the buffer, in the order of the buffer, and has dropped each error (the
  returned world differs from the old one in the log of invocations only). So
  connection \<open>x\<close> was closed as many times as it sat in the buffer: exactly once
  when it sat there once. No idle value was nil, the buffer and factory references
  are nil, and \<^verbatim>\<open>Len\<close> is 0.
\<close>

theorem C3_Close_drains:
  assumes "rconns c = Some ch" and "Close c w = Returns (c', w')"
  shows "closed w' = closed w @ conns (buf ch) \<and> None \<notin> set (buf ch) \<and>
         closes x w w' = count_list (buf ch) (Some x) \<and>
         closer w' = closer w \<and> made w' = made w \<and>
         rconns c' = None \<and> factory c' = None \<and> Len c' = 0"
proof -
  from assms(2) have c': "c' = c\<lparr>rconns := None, factory := None\<rparr>"
    by (rule Close_Returns(1))
  from assms(2,1) have w': "None \<notin> set (buf ch) \<and> w' = w\<lparr>closed := closed w @ conns (buf ch)\<rparr>"
    by (rule Close_Returns(3))
  from w' have "closes x w w' = count_list (buf ch) (Some x)"
    by (simp add: closes_def count_conns)
  with c' w' show ?thesis by (simp add: Len_closed)
qed

text \<open>
  A pool idle with connections 1 and 2: each is closed once, in that order.
\<close>

theorem C3_Close_drains_witness:
  "Close \<lparr>rconns = Some \<lparr>buf = [Some 1, Some 2], cap = 3\<rparr>, factory = Some ex_factory\<rparr> ex_world
     = Returns (\<lparr>rconns = None, factory = None\<rparr>, ex_world\<lparr>closed := [1, 2]\<rparr>) \<and>
   closes 1 ex_world (ex_world\<lparr>closed := [1, 2]\<rparr>) = 1 \<and>
   closes 2 ex_world (ex_world\<lparr>closed := [1, 2]\<rparr>) = 1 \<and>
   Len \<lparr>rconns = None, factory = (None :: Factory option)\<rparr> = 0"
proof -
  have h: "Close \<lparr>rconns = Some \<lparr>buf = [Some 1, Some 2], cap = 3\<rparr>, factory = Some ex_factory\<rparr> ex_world
     = Returns (\<lparr>rconns = None, factory = None\<rparr>, ex_world\<lparr>closed := [1, 2]\<rparr>)"
    by (simp add: Close_def RpcAble_Close_def ex_world_def)
  have r: "rconns \<lparr>rconns = Some \<lparr>buf = [Some 1, Some 2], cap = 3\<rparr>, factory = Some ex_factory\<rparr>
             = Some \<lparr>buf = [Some 1, Some 2], cap = 3\<rparr>"
    by simp
  from C3_Close_drains [OF r h, of 1] C3_Close_drains [OF r h, of 2] h show ?thesis
    by simp
qed

text \<open>
  Claim C3 as it is written fails where a connection sits in the buffer twice.
  \<^verbatim>\<open>NewChannelPool(0, 2, factory)\<close>, \<^verbatim>\<open>Get\<close>, then \<^verbatim>\<open>Close\<close> of the handle twice
  (\<^verbatim>\<open>put\<close> has no check for a connection that is already idle), then \<^verbatim>\<open>Close\<close>
  of the pool: connection 0 is idle at the moment of the shutdown, and the shutdown
  invokes its \<^verbatim>\<open>Close\<close> twice.
\<close>

theorem C3_counterexample:
  "NewChannelPool 0 2 (Some ex_factory) ex_world
     = Returns ((Some \<lparr>rconns = Some \<lparr>buf = [], cap = 2\<rparr>, factory = Some ex_factory\<rparr>, None), ex_world) \<and>
   Get \<lparr>rconns = Some \<lparr>buf = [], cap = 2\<rparr>, factory = Some ex_factory\<rparr> ex_world
     = Returns ((Some \<lparr>RpcAble = Some 0, unusable = False\<rparr>, None),
                \<lparr>rconns = Some \<lparr>buf = [], cap = 2\<rparr>, factory = Some ex_factory\<rparr>,
                ex_world\<lparr>made := 1\<rparr>) \<and>
   PoolRconn_Close \<lparr>RpcAble = Some 0, unusable = False\<rparr>
       \<lparr>rconns = Some \<lparr>buf = [], cap = 2\<rparr>, factory = Some ex_factory\<rparr> (ex_world\<lparr>made := 1\<rparr>)
     = (None, \<lparr>rconns = Some \<lparr>buf = [Some 0], cap = 2\<rparr>, factory = Some ex_factory\<rparr>,
        ex_world\<lparr>made := 1\<rparr>) \<and>
   PoolRconn_Close \<lparr>RpcAble = Some 0, unusable = False\<rparr>
       \<lparr>rconns = Some \<lparr>buf = [Some 0], cap = 2\<rparr>, factory = Some ex_factory\<rparr> (ex_world\<lparr>made := 1\<rparr>)
     = (None, \<lparr>rconns = Some \<lparr>buf = [Some 0, Some 0], cap = 2\<rparr>, factory = Some ex_factory\<rparr>,
        ex_world\<lparr>made := 1\<rparr>) \<and>
   Close \<lparr>rconns = Some \<lparr>buf = [Some 0, Some 0], cap = 2\<rparr>, factory = Some ex_factory\<rparr>
       (ex_world\<lparr>made := 1\<rparr>)
     = Returns (\<lparr>rconns = None, factory = None\<rparr>, ex_world\<lparr>made := 1, closed := [0, 0]\<rparr>) \<and>
   closes 0 (ex_world\<lparr>made := 1\<rparr>) (ex_world\<lparr>made := 1, closed := [0, 0]\<rparr>) = 2"
  by (simp add: NewChannelPool_def fill.simps Get_def getRconns_def recv_def wrapRconn_def
      PoolRconn_Close_def put_def send_def Close_def RpcAble_Close_def closes_def
      ex_world_def ex_factory_def)

text \<open>
  Claim C4. \<^verbatim>\<open>Close\<close> of a pool that was shut down (nil buffer, nil factory)
  returns, with the pool and the world as they were: no panic, no \<^verbatim>\<open>Close\<close> of
  any connection, nothing changed. And whatever pool and world a \<^verbatim>\<open>Close\<close> that
  returns leaves behind, a second \<^verbatim>\<open>Close\<close> returns with the same pool and world.
\<close>

theorem C4_Close_idempotent:
  "(rconns c = None \<and> factory c = None \<longrightarrow> Close c w = Returns (c, w)) \<and>
   (Close c w = Returns (c1, w1) \<longrightarrow> Close c1 w1 = Returns (c1, w1))"
proof (intro conjI impI)
  assume "rconns c = None \<and> factory c = None"
  then show "Close c w = Returns (c, w)" by (simp add: Close_def)
next
  assume "Close c w = Returns (c1, w1)"
  then have "c1 = c\<lparr>rconns := None, factory := None\<rparr>" by (rule Close_Returns(1))
  then show "Close c1 w1 = Returns (c1, w1)" by (simp add: Close_def)
qed

theorem C4_Close_idempotent_witness:
  "Close \<lparr>rconns = Some \<lparr>buf = [Some 1, Some 2], cap = 3\<rparr>, factory = Some ex_factory\<rparr> ex_world
     = Returns (\<lparr>rconns = None, factory = None\<rparr>, ex_world\<lparr>closed := [1, 2]\<rparr>) \<and>
   Close \<lparr>rconns = None, factory = None\<rparr> (ex_world\<lparr>closed := [1, 2]\<rparr>)
     = Returns (\<lparr>rconns = None, factory = None\<rparr>, ex_world\<lparr>closed := [1, 2]\<rparr>)"
proof -
  have h: "Close \<lparr>rconns = Some \<lparr>buf = [Some 1, Some 2], cap = 3\<rparr>, factory = Some ex_factory\<rparr> ex_world
     = Returns (\<lparr>rconns = None, factory = None\<rparr>, ex_world\<lparr>closed := [1, 2]\<rparr>)"
    by (simp add: Close_def RpcAble_Close_def ex_world_def)
  from C4_Close_idempotent
         [where c = "\<lparr>rconns = Some \<lparr>buf = [Some 1, Some 2], cap = 3\<rparr>, factory = Some ex_factory\<rparr>"
            and w = ex_world and ?c1.0 = "\<lparr>rconns = None, factory = None\<rparr>"
            and ?w1.0 = "ex_world\<lparr>closed := [1, 2]\<rparr>"]
       C4_Close_idempotent
         [where c = "\<lparr>rconns = None, factory = None\<rparr>" and w = "ex_world\<lparr>closed := [1, 2]\<rparr>"] h
  show ?thesis by simp
qed

subsection \<open>Get\<close>



text \<open>
  The one state in which \<^verbatim>\<open>Get\<close> does not return: an open pool with an empty
  buffer and a nil factory (\<^verbatim>\<open>NewChannelPool(0, n, nil)\<close>), where the call of the
  nil function panics.
\<close>

lemma Get_Panics_iff:
  "Get c w = Panics \<longleftrightarrow> (\<exists>ch. rconns c = Some ch \<and> buf ch = [] \<and> factory c = None)"
  by (auto simp add: Get_def getRconns_def recv_def wrapRconn_def
      split: option.splits list.splits prod.splits)

subsection \<open>put\<close>

text \<open>
  Claim C2. \<^verbatim>\<open>put\<close> of nil returns the rejection error and changes nothing. \<^verbatim>\<open>put\<close>
  of a connection on a pool that was shut down invokes the connection's \<^verbatim>\<open>Close\<close>
  and returns what it returns, error or nil; so it does on an open pool whose buffer
  is at capacity; the pool is unchanged in both. Otherwise the connection goes to the
  back of the buffer, nil is returned and no \<^verbatim>\<open>Close\<close> is invoked.
\<close>

theorem C2_put:
  "put None c w = (Some ErrNilRconn, c, w) \<and>
   (rconns c = None \<longrightarrow>
      put (Some x) c w = (closer w x (closed w), c, w\<lparr>closed := closed w @ [x]\<rparr>)) \<and>
   (rconns c = Some ch \<and> cap ch \<le> length (buf ch) \<longrightarrow>
      put (Some x) c w = (closer w x (closed w), c, w\<lparr>closed := closed w @ [x]\<rparr>)) \<and>
   (rconns c = Some ch \<and> length (buf ch) < cap ch \<longrightarrow>
      put (Some x) c w = (None, c\<lparr>rconns := Some (ch\<lparr>buf := buf ch @ [Some x]\<rparr>)\<rparr>, w))"
  by (simp add: put_def send_def RpcAble_Close_def)

text \<open>
  The four cases: nil; connection 7, already closed once, on a pool that was shut
  down (its \<^verbatim>\<open>Close\<close> returns an error, which \<^verbatim>\<open>put\<close> returns); connection 7 on
  a full buffer; connection 7 on a buffer with room.
\<close>

theorem C2_put_witness:
  "put None \<lparr>rconns = Some \<lparr>buf = [], cap = 1\<rparr>, factory = Some ex_factory\<rparr> ex_world
     = (Some ErrNilRconn, \<lparr>rconns = Some \<lparr>buf = [], cap = 1\<rparr>, factory = Some ex_factory\<rparr>, ex_world) \<and>
   put (Some 7) \<lparr>rconns = None, factory = None\<rparr> (ex_world\<lparr>closed := [7]\<rparr>)
     = (Some (ErrExternal ''connection is shut down''), \<lparr>rconns = None, factory = None\<rparr>,
        ex_world\<lparr>closed := [7, 7]\<rparr>) \<and>
   put (Some 7) \<lparr>rconns = Some \<lparr>buf = [Some 3], cap = 1\<rparr>, factory = Some ex_factory\<rparr> ex_world
     = (None, \<lparr>rconns = Some \<lparr>buf = [Some 3], cap = 1\<rparr>, factory = Some ex_factory\<rparr>,
        ex_world\<lparr>closed := [7]\<rparr>) \<and>
   put (Some 7) \<lparr>rconns = Some \<lparr>buf = [Some 3], cap = 2\<rparr>, factory = Some ex_factory\<rparr> ex_world
     = (None, \<lparr>rconns = Some \<lparr>buf = [Some 3, Some 7], cap = 2\<rparr>, factory = Some ex_factory\<rparr>,
        ex_world)"
  using C2_put [where c = "\<lparr>rconns = Some \<lparr>buf = [], cap = 1\<rparr>, factory = Some ex_factory\<rparr>"
                  and w = ex_world]
    C2_put [where c = "\<lparr>rconns = None, factory = None\<rparr>" and w = "ex_world\<lparr>closed := [7]\<rparr>"
              and x = 7]
    C2_put [where c = "\<lparr>rconns = Some \<lparr>buf = [Some 3], cap = 1\<rparr>, factory = Some ex_factory\<rparr>"
              and w = ex_world and x = 7 and ch = "\<lparr>buf = [Some 3], cap = 1\<rparr>"]
    C2_put [where c = "\<lparr>rconns = Some \<lparr>buf = [Some 3], cap = 2\<rparr>, factory = Some ex_factory\<rparr>"
              and w = ex_world and x = 7 and ch = "\<lparr>buf = [Some 3], cap = 2\<rparr>"]
  by (simp add: ex_world_def)

subsection \<open>Close of a handle\<close>

text \<open>
  Claim C5. \<^verbatim>\<open>Close\<close> of a handle marked unusable invokes the \<^verbatim>\<open>Close\<close> of the
  wrapped connection and returns what it returns, the pool untouched; with no
  connection wrapped it returns nil and does nothing. \<^verbatim>\<open>Close\<close> of a handle not
  marked unusable is \<^verbatim>\<open>put\<close> of the wrapped connection, result and state; it
  invokes no \<^verbatim>\<open>Close\<close> of its own: where \<^verbatim>\<open>put\<close> finds room, the log of
  invocations is as before. \<^verbatim>\<open>MarkUnusable\<close> sets the mark and keeps the connection;
  a handle fresh from \<^verbatim>\<open>wrapRconn\<close> is not marked.
\<close>

theorem C5_PoolRconn_Close:
  "(unusable p \<and> RpcAble p = Some x \<longrightarrow>
      PoolRconn_Close p c w = (closer w x (closed w), c, w\<lparr>closed := closed w @ [x]\<rparr>)) \<and>
   (unusable p \<and> RpcAble p = None \<longrightarrow> PoolRconn_Close p c w = (None, c, w)) \<and>
   (\<not> unusable p \<longrightarrow> PoolRconn_Close p c w = put (RpcAble p) c w) \<and>
   (\<not> unusable p \<and> rconns c = Some ch \<and> length (buf ch) < cap ch \<longrightarrow>
      closed (snd (snd (PoolRconn_Close p c w))) = closed w) \<and>
   unusable (MarkUnusable p) \<and> RpcAble (MarkUnusable p) = RpcAble p \<and>
   \<not> unusable (wrapRconn r) \<and> RpcAble (wrapRconn r) = r"
  by (auto simp add: PoolRconn_Close_def RpcAble_Close_def MarkUnusable_def wrapRconn_def
      put_def send_def split: option.splits)

theorem C5_PoolRconn_Close_witness:
  "PoolRconn_Close (MarkUnusable (wrapRconn (Some 4)))
       \<lparr>rconns = Some \<lparr>buf = [], cap = 1\<rparr>, factory = Some ex_factory\<rparr> ex_world
     = (None, \<lparr>rconns = Some \<lparr>buf = [], cap = 1\<rparr>, factory = Some ex_factory\<rparr>,
        ex_world\<lparr>closed := [4]\<rparr>) \<and>
   PoolRconn_Close (MarkUnusable (wrapRconn None))
       \<lparr>rconns = Some \<lparr>buf = [], cap = 1\<rparr>, factory = Some ex_factory\<rparr> ex_world
     = (None, \<lparr>rconns = Some \<lparr>buf = [], cap = 1\<rparr>, factory = Some ex_factory\<rparr>, ex_world) \<and>
   PoolRconn_Close (wrapRconn (Some 4))
       \<lparr>rconns = Some \<lparr>buf = [], cap = 1\<rparr>, factory = Some ex_factory\<rparr> ex_world
     = put (Some 4) \<lparr>rconns = Some \<lparr>buf = [], cap = 1\<rparr>, factory = Some ex_factory\<rparr> ex_world \<and>
   closed (snd (snd (PoolRconn_Close (wrapRconn (Some 4))
       \<lparr>rconns = Some \<lparr>buf = [], cap = 1\<rparr>, factory = Some ex_factory\<rparr> ex_world))) = []"
  using C5_PoolRconn_Close
          [where p = "MarkUnusable (wrapRconn (Some 4))" and x = 4 and w = ex_world
             and c = "\<lparr>rconns = Some \<lparr>buf = [], cap = 1\<rparr>, factory = Some ex_factory\<rparr>"]
        C5_PoolRconn_Close
          [where p = "MarkUnusable (wrapRconn None)" and w = ex_world
             and c = "\<lparr>rconns = Some \<lparr>buf = [], cap = 1\<rparr>, factory = Some ex_factory\<rparr>"]
        C5_PoolRconn_Close
          [where p = "wrapRconn (Some 4)" and w = ex_world
             and c = "\<lparr>rconns = Some \<lparr>buf = [], cap = 1\<rparr>, factory = Some ex_factory\<rparr>"
             and ch = "\<lparr>buf = [], cap = 1\<rparr>"]
  by (simp add: MarkUnusable_def wrapRconn_def put_def send_def ex_world_def)

text \<open>
  Claim C9. \<^verbatim>\<open>Close\<close> of a handle that is not marked unusable and wraps
  connection \<open>x\<close>, called twice on an open pool with room for two more: each call is
  \<^verbatim>\<open>put\<close> of \<open>x\<close>, each returns nil, \<open>x\<close> is in the buffer twice afterwards and
  \<^verbatim>\<open>Len\<close> is larger by 2.
\<close>

theorem C9_double_Close:
  assumes "\<not> unusable p" and "RpcAble p = Some x"
    and "rconns c = Some ch" and "length (buf ch) + 2 \<le> cap ch"
  shows "PoolRconn_Close p c w = put (Some x) c w \<and>
         put (Some x) c w = (None, c\<lparr>rconns := Some (ch\<lparr>buf := buf ch @ [Some x]\<rparr>)\<rparr>, w) \<and>
         PoolRconn_Close p (c\<lparr>rconns := Some (ch\<lparr>buf := buf ch @ [Some x]\<rparr>)\<rparr>) w
           = put (Some x) (c\<lparr>rconns := Some (ch\<lparr>buf := buf ch @ [Some x]\<rparr>)\<rparr>) w \<and>
         put (Some x) (c\<lparr>rconns := Some (ch\<lparr>buf := buf ch @ [Some x]\<rparr>)\<rparr>) w
           = (None, c\<lparr>rconns := Some (ch\<lparr>buf := buf ch @ [Some x, Some x]\<rparr>)\<rparr>, w) \<and>
         Len (c\<lparr>rconns := Some (ch\<lparr>buf := buf ch @ [Some x, Some x]\<rparr>)\<rparr>) = Len c + 2"
  using assms
  by (simp add: PoolRconn_Close_def put_def send_def Len_def getRconns_def)

theorem C9_double_Close_witness:
  "PoolRconn_Close (wrapRconn (Some 4))
       \<lparr>rconns = Some \<lparr>buf = [Some 3], cap = 3\<rparr>, factory = Some ex_factory\<rparr> ex_world
     = (None, \<lparr>rconns = Some \<lparr>buf = [Some 3, Some 4], cap = 3\<rparr>, factory = Some ex_factory\<rparr>, ex_world) \<and>
   PoolRconn_Close (wrapRconn (Some 4))
       \<lparr>rconns = Some \<lparr>buf = [Some 3, Some 4], cap = 3\<rparr>, factory = Some ex_factory\<rparr> ex_world
     = (None, \<lparr>rconns = Some \<lparr>buf = [Some 3, Some 4, Some 4], cap = 3\<rparr>, factory = Some ex_factory\<rparr>,
        ex_world) \<and>
   Len \<lparr>rconns = Some \<lparr>buf = [Some 3, Some 4, Some 4], cap = 3\<rparr>, factory = Some ex_factory\<rparr>
     = Len \<lparr>rconns = Some \<lparr>buf = [Some 3], cap = 3\<rparr>, factory = Some ex_factory\<rparr> + 2"
proof -
  have a: "\<not> unusable (wrapRconn (Some 4))" "RpcAble (wrapRconn (Some 4)) = Some 4"
    by (simp_all add: wrapRconn_def)
  have r: "rconns \<lparr>rconns = Some \<lparr>buf = [Some 3], cap = 3\<rparr>, factory = Some ex_factory\<rparr>
             = Some \<lparr>buf = [Some 3], cap = 3\<rparr>"
    by simp
  have l: "length (buf \<lparr>buf = [Some (3::nat)], cap = 3\<rparr>) + 2 \<le> cap \<lparr>buf = [Some (3::nat)], cap = 3\<rparr>"
    by simp
  from C9_double_Close [OF a r l, of ex_world] show ?thesis by simp
qed

subsection \<open>Get, then Close of the handle\<close>

text \<open>
  Claim C7, as amended. On an open pool whose channel holds no more than its
  capacity, let \<^verbatim>\<open>Get\<close> return a handle and \<^verbatim>\<open>Close\<close> of that handle, not marked
  unusable, follow at once. If the buffer was not empty, \<^verbatim>\<open>Len\<close> is what it was
  before the \<^verbatim>\<open>Get\<close>. If the buffer was empty, the connection that the factory
  made goes into the buffer: \<^verbatim>\<open>Len\<close> goes from 0 to 1 (it stays 0 only when the
  factory returned a nil connection or the capacity is 0).
\<close>

theorem C7_Get_then_Close:
  assumes "Get c w = Returns ((Some h, None), c1, w1)"
    and "PoolRconn_Close h c1 w1 = (e, c2, w2)"
    and "rconns c = Some ch" and "length (buf ch) \<le> cap ch"
  shows "(0 < Len c \<longrightarrow> Len c2 = Len c) \<and>
         (Len c = 0 \<longrightarrow> Len c2 = (if RpcAble h \<noteq> None \<and> 0 < cap ch then 1 else 0))"
  using assms
  by (auto simp add: Get_def getRconns_def recv_def wrapRconn_def Len_def
      PoolRconn_Close_def put_def send_def RpcAble_Close_def
      split: option.splits list.splits prod.splits if_splits)

text \<open>
  A buffer idle with connections 4 and 5, capacity 2: \<^verbatim>\<open>Len\<close> is 2 before and
  after. An empty buffer of capacity 1: \<^verbatim>\<open>Len\<close> is 0 before and 1 after.
\<close>

theorem C7_Get_then_Close_witness:
  "Get \<lparr>rconns = Some \<lparr>buf = [Some 4, Some 5], cap = 2\<rparr>, factory = Some ex_factory\<rparr> ex_world
     = Returns ((Some \<lparr>RpcAble = Some 4, unusable = False\<rparr>, None),
                \<lparr>rconns = Some \<lparr>buf = [Some 5], cap = 2\<rparr>, factory = Some ex_factory\<rparr>, ex_world) \<and>
   PoolRconn_Close \<lparr>RpcAble = Some 4, unusable = False\<rparr>
       \<lparr>rconns = Some \<lparr>buf = [Some 5], cap = 2\<rparr>, factory = Some ex_factory\<rparr> ex_world
     = (None, \<lparr>rconns = Some \<lparr>buf = [Some 5, Some 4], cap = 2\<rparr>, factory = Some ex_factory\<rparr>, ex_world) \<and>
   Len \<lparr>rconns = Some \<lparr>buf = [Some 4, Some 5], cap = 2\<rparr>, factory = Some ex_factory\<rparr> = 2 \<and>
   Len \<lparr>rconns = Some \<lparr>buf = [Some 5, Some 4], cap = 2\<rparr>, factory = Some ex_factory\<rparr> = 2 \<and>
   Get \<lparr>rconns = Some \<lparr>buf = [], cap = 1\<rparr>, factory = Some ex_factory\<rparr> ex_world
     = Returns ((Some \<lparr>RpcAble = Some 0, unusable = False\<rparr>, None),
                \<lparr>rconns = Some \<lparr>buf = [], cap = 1\<rparr>, factory = Some ex_factory\<rparr>,
                ex_world\<lparr>made := 1\<rparr>) \<and>
   Len \<lparr>rconns = Some \<lparr>buf = [], cap = 1\<rparr>, factory = Some ex_factory\<rparr> = 0 \<and>
   PoolRconn_Close \<lparr>RpcAble = Some 0, unusable = False\<rparr>
       \<lparr>rconns = Some \<lparr>buf = [], cap = 1\<rparr>, factory = Some ex_factory\<rparr> (ex_world\<lparr>made := 1\<rparr>)
     = (None, \<lparr>rconns = Some \<lparr>buf = [Some 0], cap = 1\<rparr>, factory = Some ex_factory\<rparr>,
        ex_world\<lparr>made := 1\<rparr>) \<and>
   Len \<lparr>rconns = Some \<lparr>buf = [Some 0], cap = 1\<rparr>, factory = Some ex_factory\<rparr> = 1"
proof -
  have g: "Get \<lparr>rconns = Some \<lparr>buf = [Some 4, Some 5], cap = 2\<rparr>, factory = Some ex_factory\<rparr> ex_world
     = Returns ((Some \<lparr>RpcAble = Some 4, unusable = False\<rparr>, None),
                \<lparr>rconns = Some \<lparr>buf = [Some 5], cap = 2\<rparr>, factory = Some ex_factory\<rparr>, ex_world)"
    by (simp add: Get_def getRconns_def recv_def wrapRconn_def)
  have p: "PoolRconn_Close \<lparr>RpcAble = Some 4, unusable = False\<rparr>
       \<lparr>rconns = Some \<lparr>buf = [Some 5], cap = 2\<rparr>, factory = Some ex_factory\<rparr> ex_world
     = (None, \<lparr>rconns = Some \<lparr>buf = [Some 5, Some 4], cap = 2\<rparr>, factory = Some ex_factory\<rparr>, ex_world)"
    by (simp add: PoolRconn_Close_def put_def send_def)
  have r: "rconns \<lparr>rconns = Some \<lparr>buf = [Some 4, Some 5], cap = 2\<rparr>, factory = Some ex_factory\<rparr>
             = Some \<lparr>buf = [Some 4, Some 5], cap = 2\<rparr>"
    by simp
  have l: "length (buf \<lparr>buf = [Some (4::nat), Some 5], cap = 2\<rparr>)
             \<le> cap \<lparr>buf = [Some (4::nat), Some 5], cap = 2\<rparr>"
    by simp
  have n: "Len \<lparr>rconns = Some \<lparr>buf = [Some 4, Some 5], cap = 2\<rparr>, factory = Some ex_factory\<rparr> = 2"
    by (simp add: Len_def getRconns_def)
  have g0: "Get \<lparr>rconns = Some \<lparr>buf = [], cap = 1\<rparr>, factory = Some ex_factory\<rparr> ex_world
     = Returns ((Some \<lparr>RpcAble = Some 0, unusable = False\<rparr>, None),
                \<lparr>rconns = Some \<lparr>buf = [], cap = 1\<rparr>, factory = Some ex_factory\<rparr>,
                ex_world\<lparr>made := 1\<rparr>)"
    by (simp add: Get_def getRconns_def recv_def wrapRconn_def ex_world_def ex_factory_def)
  have p0: "PoolRconn_Close \<lparr>RpcAble = Some 0, unusable = False\<rparr>
       \<lparr>rconns = Some \<lparr>buf = [], cap = 1\<rparr>, factory = Some ex_factory\<rparr> (ex_world\<lparr>made := 1\<rparr>)
     = (None, \<lparr>rconns = Some \<lparr>buf = [Some 0], cap = 1\<rparr>, factory = Some ex_factory\<rparr>,
        ex_world\<lparr>made := 1\<rparr>)"
    by (simp add: PoolRconn_Close_def put_def send_def)
  have r0: "rconns \<lparr>rconns = Some \<lparr>buf = [], cap = 1\<rparr>, factory = Some ex_factory\<rparr>
              = Some \<lparr>buf = [], cap = 1\<rparr>"
    by simp
  have l0: "length (buf \<lparr>buf = ([] :: RpcAble list), cap = 1\<rparr>) \<le> cap \<lparr>buf = ([] :: RpcAble list), cap = 1\<rparr>"
    by simp
  have n0: "Len \<lparr>rconns = Some \<lparr>buf = [], cap = 1\<rparr>, factory = Some ex_factory\<rparr> = 0"
    by (simp add: Len_def getRconns_def)
  from C7_Get_then_Close [OF g p r l]
       C7_Get_then_Close [OF g0 p0 r0 l0]
       g p n g0 p0 n0
  show ?thesis by simp
qed

text \<open>
  Claim C7 as it is written fails on the empty buffer with a factory that
  succeeds. \<^verbatim>\<open>NewChannelPool(0, 1, factory)\<close>: \<^verbatim>\<open>Len\<close> is 0; \<^verbatim>\<open>Get\<close> makes
  connection 0; \<^verbatim>\<open>Close\<close> of the handle puts it into the buffer; \<^verbatim>\<open>Len\<close> is 1.
\<close>

theorem C7_counterexample:
  "NewChannelPool 0 1 (Some ex_factory) ex_world
     = Returns ((Some \<lparr>rconns = Some \<lparr>buf = [], cap = 1\<rparr>, factory = Some ex_factory\<rparr>, None), ex_world) \<and>
   Len \<lparr>rconns = Some \<lparr>buf = [], cap = 1\<rparr>, factory = Some ex_factory\<rparr> = 0 \<and>
   Get \<lparr>rconns = Some \<lparr>buf = [], cap = 1\<rparr>, factory = Some ex_factory\<rparr> ex_world
     = Returns ((Some \<lparr>RpcAble = Some 0, unusable = False\<rparr>, None),
                \<lparr>rconns = Some \<lparr>buf = [], cap = 1\<rparr>, factory = Some ex_factory\<rparr>,
                ex_world\<lparr>made := 1\<rparr>) \<and>
   PoolRconn_Close \<lparr>RpcAble = Some 0, unusable = False\<rparr>
       \<lparr>rconns = Some \<lparr>buf = [], cap = 1\<rparr>, factory = Some ex_factory\<rparr> (ex_world\<lparr>made := 1\<rparr>)
     = (None, \<lparr>rconns = Some \<lparr>buf = [Some 0], cap = 1\<rparr>, factory = Some ex_factory\<rparr>,
        ex_world\<lparr>made := 1\<rparr>) \<and>
   Len \<lparr>rconns = Some \<lparr>buf = [Some 0], cap = 1\<rparr>, factory = Some ex_factory\<rparr> = 1"
  by (simp add: NewChannelPool_def fill.simps Get_def getRconns_def recv_def wrapRconn_def
      PoolRconn_Close_def put_def send_def Len_def ex_world_def ex_factory_def)

subsection \<open>Construction\<close>

text \<open>
  Claim C8. With \<^verbatim>\<open>initialCap < 0\<close>, \<^verbatim>\<open>maxCap <= 0\<close> or \<^verbatim>\<open>initialCap > maxCap\<close>,
  \<^verbatim>\<open>NewChannelPool\<close> returns the invalid-capacity error and no pool, and the world
  is as before: the factory was not invoked (\<open>made\<close> is unchanged), so no
  connection was made, and none was closed.
\<close>

theorem C8_invalid_capacity:
  "initialCap < 0 \<or> maxCap \<le> 0 \<or> initialCap > maxCap \<Longrightarrow>
   NewChannelPool initialCap maxCap fo w = Returns ((None, Some ErrInvalidCapacity), w)"
  by (simp add: NewChannelPool_def)

theorem C8_invalid_capacity_witness:
  "NewChannelPool (- 1) 5 (Some ex_factory) ex_world
     = Returns ((None, Some ErrInvalidCapacity), ex_world) \<and>
   NewChannelPool 0 0 (Some ex_factory) ex_world
     = Returns ((None, Some ErrInvalidCapacity), ex_world) \<and>
   NewChannelPool 6 5 (Some ex_factory) ex_world
     = Returns ((None, Some ErrInvalidCapacity), ex_world)"
  using C8_invalid_capacity [of "- 1" 5 "Some ex_factory" ex_world]
    C8_invalid_capacity [of 0 0 "Some ex_factory" ex_world]
    C8_invalid_capacity [of 6 5 "Some ex_factory" ex_world]
  by simp

text \<open>
  One turn of the loop that returns a pool in the end: the factory was there and
  returned no error, the send found room, and the loop went on with the connection
  at the back of the buffer.
\<close>

lemma fill_step:
  assumes "i < ic" and "fill i ic fo c w = Returns ((Some c', e), w')"
  obtains f rconn ch where "fo = Some f" and "f (made w) = (rconn, None)"
    and "rconns c = Some ch" and "length (buf ch) < cap ch"
    and "fill (i + 1) ic fo (c\<lparr>rconns := Some (ch\<lparr>buf := buf ch @ [rconn]\<rparr>)\<rparr>)
           (w\<lparr>made := made w + 1\<rparr>) = Returns ((Some c', e), w')"
  using assms
  by (subst (asm) fill.simps)
     (auto split: option.splits prod.splits if_splits outcome.splits)

text \<open>
  The send in the loop never blocks: turn \<open>i\<close> finds \<open>i\<close> values in a channel whose
  capacity is at least \<^verbatim>\<open>initialCap\<close>.
\<close>

lemma fill_not_Blocks:
  "rconns c = Some ch \<Longrightarrow> 0 \<le> i \<Longrightarrow> int (length (buf ch)) = i \<Longrightarrow> ic \<le> int (cap ch) \<Longrightarrow>
     fill i ic fo c w \<noteq> Blocks"
proof (induction i ic fo c w arbitrary: ch rule: fill.induct)
  case (1 i ic fo c w)
  show ?case
  proof (cases "i < ic")
    case False
    then show ?thesis by (simp add: fill.simps [of i])
  next
    case True
    show ?thesis
    proof (cases fo)
      case None
      with True show ?thesis by (simp add: fill.simps [of i])
    next
      case (Some f)
      obtain rconn err where fr: "f (made w) = (rconn, err)" by (cases "f (made w)")
      show ?thesis
      proof (cases err)
        case (Some e)
        with True \<open>fo = Some f\<close> fr show ?thesis
          by (simp add: fill.simps [of i] Close_not_Blocks split: outcome.splits)
      next
        case None
        from True "1.prems" have lt: "length (buf ch) < cap ch" by simp
        let ?c = "c\<lparr>rconns := Some (ch\<lparr>buf := buf ch @ [rconn]\<rparr>)\<rparr>"
        have "fill (i + 1) ic fo ?c (w\<lparr>made := made w + 1\<rparr>) \<noteq> Blocks"
        proof (rule "1.IH" [OF True \<open>fo = Some f\<close> _ refl "1.prems"(1) lt])
          show "(rconn, None) = f (made w)" using fr None by simp
          show "rconns ?c = Some (ch\<lparr>buf := buf ch @ [rconn]\<rparr>)" by simp
          show "0 \<le> i + 1" using "1.prems"(2) by simp
          show "int (length (buf (ch\<lparr>buf := buf ch @ [rconn]\<rparr>))) = i + 1"
            using "1.prems"(3) by simp
          show "ic \<le> int (cap (ch\<lparr>buf := buf ch @ [rconn]\<rparr>))" using "1.prems"(4) by simp
        qed
        with True \<open>fo = Some f\<close> fr None "1.prems"(1) lt show ?thesis
          by (simp add: fill.simps [of i])
      qed
    qed
  qed
qed

lemma NewChannelPool_not_Blocks: "NewChannelPool initialCap maxCap fo w \<noteq> Blocks"
proof (cases "initialCap < 0 \<or> maxCap \<le> 0 \<or> initialCap > maxCap")
  case True
  then show ?thesis by (simp add: NewChannelPool_def)
next
  case False
  have "fill 0 initialCap fo \<lparr>rconns = Some \<lparr>buf = [], cap = nat maxCap\<rparr>, factory = fo\<rparr> w \<noteq> Blocks"
    by (rule fill_not_Blocks [where ch = "\<lparr>buf = [], cap = nat maxCap\<rparr>"]) (use False in simp_all)
  with False show ?thesis by (simp add: NewChannelPool_def)
qed

subsection \<open>The capacity bound\<close>

lemma fill_within:
  "fill i ic fo c w = Returns ((Some c', e), w') \<Longrightarrow> within mc c \<Longrightarrow> within mc c'"
proof (induction i ic fo c w rule: fill.induct)
  case (1 i ic fo c w)
  show ?case
  proof (cases "i < ic")
    case False
    with "1.prems" show ?thesis by (simp add: fill.simps [of i])
  next
    case True
    from True "1.prems"(1) obtain f rconn ch where
      a: "fo = Some f" "f (made w) = (rconn, None)" "rconns c = Some ch" "length (buf ch) < cap ch"
      and r: "fill (i + 1) ic fo (c\<lparr>rconns := Some (ch\<lparr>buf := buf ch @ [rconn]\<rparr>)\<rparr>)
           (w\<lparr>made := made w + 1\<rparr>) = Returns ((Some c', e), w')"
      by (rule fill_step)
    from "1.prems"(2) a have "within mc (c\<lparr>rconns := Some (ch\<lparr>buf := buf ch @ [rconn]\<rparr>)\<rparr>)"
      by (simp add: within_def)
    with "1.IH" [OF True a(1) a(2) [symmetric] refl a(3) a(4) r] show ?thesis .
  qed
qed

lemma NewChannelPool_within:
  assumes "NewChannelPool initialCap maxCap fo w = Returns ((Some c, e), w')"
  shows "within maxCap c"
proof -
  from assms have ok: "0 < maxCap"
    and f: "fill 0 initialCap fo \<lparr>rconns = Some \<lparr>buf = [], cap = nat maxCap\<rparr>, factory = fo\<rparr> w
              = Returns ((Some c, e), w')"
    by (auto simp add: NewChannelPool_def split: if_splits)
  from ok have "within maxCap \<lparr>rconns = Some \<lparr>buf = [], cap = nat maxCap\<rparr>, factory = fo\<rparr>"
    by (simp add: within_def)
  with f show ?thesis by (rule fill_within)
qed

lemma Get_within:
  "Get c w = Returns (r, c', w') \<Longrightarrow> within mc c \<Longrightarrow> within mc c'"
  by (auto simp add: Get_def getRconns_def recv_def within_def
      split: option.splits list.splits prod.splits if_splits)

lemma put_within:
  "put rconn c w = (e, c', w') \<Longrightarrow> within mc c \<Longrightarrow> within mc c'"
  by (auto simp add: put_def send_def within_def RpcAble_Close_def
      split: option.splits if_splits)

lemma PoolRconn_Close_within:
  "PoolRconn_Close p c w = (e, c', w') \<Longrightarrow> within mc c \<Longrightarrow> within mc c'"
  by (auto simp add: PoolRconn_Close_def RpcAble_Close_def
      split: option.splits if_splits dest: put_within)

lemma Close_within: "Close c w = Returns (c', w') \<Longrightarrow> within mc c'"
  by (drule Close_Returns(1)) (simp add: within_def)

lemma step_within:
  "step a c w = Returns (c', w') \<Longrightarrow> within mc c \<Longrightarrow> within mc c'"
  by (cases a)
     (auto split: outcome.splits prod.splits
       dest: Get_within put_within PoolRconn_Close_within Close_within)

lemma run_within:
  "run ops c w = Returns (c', w') \<Longrightarrow> within mc c \<Longrightarrow> within mc c'"
proof (induction ops arbitrary: c w)
  case Nil
  then show ?case by simp
next
  case (Cons a ops)
  from Cons.prems(1) obtain c1 w1 where s: "step a c w = Returns (c1, w1)"
    and r: "run ops c1 w1 = Returns (c', w')"
    by (auto split: outcome.splits)
  from s Cons.prems(2) have "within mc c1" by (rule step_within)
  with r show ?case by (rule Cons.IH)
qed

lemma within_Len: "within mc c \<Longrightarrow> 0 < mc \<Longrightarrow> int (Len c) \<le> mc"
  by (auto simp add: within_def Len_def getRconns_def split: option.splits)

text \<open>
  Claim C6. Let \<^verbatim>\<open>NewChannelPool\<close> with \<^verbatim>\<open>maxCap\<close> return a pool, and let any
  sequence of \<^verbatim>\<open>Get\<close>, \<^verbatim>\<open>put\<close>, \<^verbatim>\<open>Close\<close> of a handle and \<^verbatim>\<open>Close\<close> of the pool
  run on it. Then \<^verbatim>\<open>Len\<close> is at most \<^verbatim>\<open>maxCap\<close> (after every prefix, a prefix
  being such a sequence itself). And when the buffer holds \<^verbatim>\<open>maxCap\<close> values, the
  return of a connection, by \<^verbatim>\<open>put\<close> or by \<^verbatim>\<open>Close\<close> of a handle around it,
  invokes the connection's \<^verbatim>\<open>Close\<close>, returns its result and leaves the pool as it
  was.
\<close>

theorem C6_Len_bounded:
  assumes "NewChannelPool initialCap maxCap fo w = Returns ((Some c, None), w1)"
    and "run ops c w1 = Returns (c', w')"
  shows "int (Len c') \<le> maxCap \<and>
         (int (Len c') = maxCap \<longrightarrow>
            put (Some x) c' w' = (closer w' x (closed w'), c', w'\<lparr>closed := closed w' @ [x]\<rparr>) \<and>
            PoolRconn_Close (wrapRconn (Some x)) c' w'
              = (closer w' x (closed w'), c', w'\<lparr>closed := closed w' @ [x]\<rparr>))"
proof -
  from assms(1) have pos: "0 < maxCap"
    by (auto simp add: NewChannelPool_def split: if_splits)
  from assms(1) have "within maxCap c" by (rule NewChannelPool_within)
  with assms(2) have inv: "within maxCap c'" by (rule run_within)
  from inv pos have le: "int (Len c') \<le> maxCap" by (rule within_Len)
  have full: "put (Some x) c' w' = (closer w' x (closed w'), c', w'\<lparr>closed := closed w' @ [x]\<rparr>)"
    if "int (Len c') = maxCap"
    using that inv pos
    by (auto simp add: within_def Len_def getRconns_def put_def send_def RpcAble_Close_def
        split: option.splits)
  from le full show ?thesis
    by (simp add: PoolRconn_Close_def wrapRconn_def)
qed

text \<open>
  \<^verbatim>\<open>NewChannelPool(1, 2, factory)\<close>, two \<^verbatim>\<open>Get\<close>, then the handles around
  connections 0, 1 and 5 closed: 0 and 1 fill the buffer, 5 is closed. A \<^verbatim>\<open>put\<close> of
  connection 9 on the full buffer closes 9.
\<close>

theorem C6_Len_bounded_witness:
  "NewChannelPool 1 2 (Some ex_factory) ex_world
     = Returns ((Some \<lparr>rconns = Some \<lparr>buf = [Some 0], cap = 2\<rparr>, factory = Some ex_factory\<rparr>, None),
                ex_world\<lparr>made := 1\<rparr>) \<and>
   run [OpGet, OpGet, OpHandleClose (wrapRconn (Some 0)), OpHandleClose (wrapRconn (Some 1)),
        OpHandleClose (wrapRconn (Some 5))]
       \<lparr>rconns = Some \<lparr>buf = [Some 0], cap = 2\<rparr>, factory = Some ex_factory\<rparr> (ex_world\<lparr>made := 1\<rparr>)
     = Returns (\<lparr>rconns = Some \<lparr>buf = [Some 0, Some 1], cap = 2\<rparr>, factory = Some ex_factory\<rparr>,
                ex_world\<lparr>made := 2, closed := [5]\<rparr>) \<and>
   int (Len \<lparr>rconns = Some \<lparr>buf = [Some 0, Some 1], cap = 2\<rparr>, factory = Some ex_factory\<rparr>) = 2 \<and>
   put (Some 9) \<lparr>rconns = Some \<lparr>buf = [Some 0, Some 1], cap = 2\<rparr>, factory = Some ex_factory\<rparr>
       (ex_world\<lparr>made := 2, closed := [5]\<rparr>)
     = (None, \<lparr>rconns = Some \<lparr>buf = [Some 0, Some 1], cap = 2\<rparr>, factory = Some ex_factory\<rparr>,
        ex_world\<lparr>made := 2, closed := [5, 9]\<rparr>)"
proof -
  have n: "NewChannelPool 1 2 (Some ex_factory) ex_world
     = Returns ((Some \<lparr>rconns = Some \<lparr>buf = [Some 0], cap = 2\<rparr>, factory = Some ex_factory\<rparr>, None),
                ex_world\<lparr>made := 1\<rparr>)"
    by (simp add: NewChannelPool_def fill.simps ex_world_def ex_factory_def)
  have r: "run [OpGet, OpGet, OpHandleClose (wrapRconn (Some 0)), OpHandleClose (wrapRconn (Some 1)),
        OpHandleClose (wrapRconn (Some 5))]
       \<lparr>rconns = Some \<lparr>buf = [Some 0], cap = 2\<rparr>, factory = Some ex_factory\<rparr> (ex_world\<lparr>made := 1\<rparr>)
     = Returns (\<lparr>rconns = Some \<lparr>buf = [Some 0, Some 1], cap = 2\<rparr>, factory = Some ex_factory\<rparr>,
                ex_world\<lparr>made := 2, closed := [5]\<rparr>)"
    by (simp add: Get_def getRconns_def recv_def wrapRconn_def PoolRconn_Close_def put_def
        send_def RpcAble_Close_def ex_world_def ex_factory_def)
  have l: "int (Len \<lparr>rconns = Some \<lparr>buf = [Some 0, Some 1], cap = 2\<rparr>, factory = Some ex_factory\<rparr>) = 2"
    by (simp add: Len_def getRconns_def)
  from C6_Len_bounded [OF n r, of 9] n r l show ?thesis
    by (simp add: ex_world_def)
qed

subsection \<open>No nil in the buffer\<close>

lemma fill_no_nil:
  "fill i ic (Some f) c w = Returns ((Some c', e), w') \<Longrightarrow> \<forall>n. f n \<noteq> (None, None) \<Longrightarrow>
     no_nil c \<Longrightarrow> no_nil c'"
proof (induction i ic "Some f" c w rule: fill.induct)
  case (1 i ic c w)
  show ?case
  proof (cases "i < ic")
    case False
    with "1.prems" show ?thesis by (simp add: fill.simps [of i])
  next
    case True
    from True "1.prems"(1) obtain g rconn ch where
      a: "Some f = Some g" "g (made w) = (rconn, None)" "rconns c = Some ch" "length (buf ch) < cap ch"
      and r: "fill (i + 1) ic (Some f) (c\<lparr>rconns := Some (ch\<lparr>buf := buf ch @ [rconn]\<rparr>)\<rparr>)
           (w\<lparr>made := made w + 1\<rparr>) = Returns ((Some c', e), w')"
      by (rule fill_step)
    from "1.prems"(2) have "g (made w) \<noteq> (None, None)" using a(1) by simp
    with a(2) have "rconn \<noteq> None" by auto
    with "1.prems"(3) a have "no_nil (c\<lparr>rconns := Some (ch\<lparr>buf := buf ch @ [rconn]\<rparr>)\<rparr>)"
      by (auto simp add: no_nil_def)
    with "1.hyps" [OF True a(1) a(2) [symmetric] refl a(3) a(4) r "1.prems"(2)] show ?thesis .
  qed
qed

lemma NewChannelPool_no_nil:
  assumes "NewChannelPool initialCap maxCap (Some f) w = Returns ((Some c, e), w')"
    and "\<forall>n. f n \<noteq> (None, None)"
  shows "no_nil c"
proof -
  from assms(1) have
    f: "fill 0 initialCap (Some f) \<lparr>rconns = Some \<lparr>buf = [], cap = nat maxCap\<rparr>, factory = Some f\<rparr> w
              = Returns ((Some c, e), w')"
    by (auto simp add: NewChannelPool_def split: if_splits)
  have "no_nil \<lparr>rconns = Some \<lparr>buf = [], cap = nat maxCap\<rparr>, factory = Some f\<rparr>"
    by (simp add: no_nil_def)
  with f assms(2) show ?thesis by (rule fill_no_nil)
qed

lemma Get_no_nil:
  "Get c w = Returns (r, c', w') \<Longrightarrow> no_nil c \<Longrightarrow> no_nil c'"
  by (auto simp add: Get_def getRconns_def recv_def no_nil_def
      split: option.splits list.splits prod.splits if_splits)

lemma put_no_nil:
  "put rconn c w = (e, c', w') \<Longrightarrow> no_nil c \<Longrightarrow> no_nil c'"
  by (auto simp add: put_def send_def no_nil_def RpcAble_Close_def
      split: option.splits if_splits)

lemma PoolRconn_Close_no_nil:
  "PoolRconn_Close p c w = (e, c', w') \<Longrightarrow> no_nil c \<Longrightarrow> no_nil c'"
  by (auto simp add: PoolRconn_Close_def RpcAble_Close_def
      split: option.splits if_splits dest: put_no_nil)

lemma Close_no_nil: "Close c w = Returns (c', w') \<Longrightarrow> no_nil c'"
  by (drule Close_Returns(1)) (simp add: no_nil_def)

lemma step_no_nil:
  "step a c w = Returns (c', w') \<Longrightarrow> no_nil c \<Longrightarrow> no_nil c'"
  by (cases a)
     (auto split: outcome.splits prod.splits
       dest: Get_no_nil put_no_nil PoolRconn_Close_no_nil Close_no_nil)

lemma run_no_nil:
  "run ops c w = Returns (c', w') \<Longrightarrow> no_nil c \<Longrightarrow> no_nil c'"
proof (induction ops arbitrary: c w)
  case Nil
  then show ?case by simp
next
  case (Cons a ops)
  from Cons.prems(1) obtain c1 w1 where s: "step a c w = Returns (c1, w1)"
    and r: "run ops c1 w1 = Returns (c', w')"
    by (auto split: outcome.splits)
  from s Cons.prems(2) have "no_nil c1" by (rule step_no_nil)
  with r show ?case by (rule Cons.IH)
qed

text \<open>
  Claim C10. Let the factory never return a nil connection with a nil error. Let
  \<^verbatim>\<open>NewChannelPool\<close> with that factory return a pool, and let any sequence of
  \<^verbatim>\<open>Get\<close>, \<^verbatim>\<open>put\<close> (of any value, nil too), \<^verbatim>\<open>Close\<close> of a handle and \<^verbatim>\<open>Close\<close> of
  the pool run on it. If the pool is open afterwards, no value in its buffer is
  nil: the initial fill sends factory results only, \<^verbatim>\<open>put\<close> rejects nil before it
  sends, and \<^verbatim>\<open>Get\<close> sends nothing.
\<close>

theorem C10_no_nil_idle:
  assumes "\<forall>n. f n \<noteq> (None, None)"
    and "NewChannelPool initialCap maxCap (Some f) w = Returns ((Some c, None), w1)"
    and "run ops c w1 = Returns (c', w')"
    and "rconns c' = Some ch"
  shows "None \<notin> set (buf ch)"
proof -
  from assms(2,1) have "no_nil c" by (rule NewChannelPool_no_nil)
  with assms(3) have "no_nil c'" by (rule run_no_nil)
  with assms(4) show ?thesis by (simp add: no_nil_def)
qed

theorem C10_no_nil_idle_witness:
  "NewChannelPool 1 2 (Some ex_factory) ex_world
     = Returns ((Some \<lparr>rconns = Some \<lparr>buf = [Some 0], cap = 2\<rparr>, factory = Some ex_factory\<rparr>, None),
                ex_world\<lparr>made := 1\<rparr>) \<and>
   run [OpGet, OpGet, OpPut None, OpPut (Some 0), OpHandleClose (wrapRconn None), OpPut (Some 1)]
       \<lparr>rconns = Some \<lparr>buf = [Some 0], cap = 2\<rparr>, factory = Some ex_factory\<rparr> (ex_world\<lparr>made := 1\<rparr>)
     = Returns (\<lparr>rconns = Some \<lparr>buf = [Some 0, Some 1], cap = 2\<rparr>, factory = Some ex_factory\<rparr>,
                ex_world\<lparr>made := 2\<rparr>) \<and>
   None \<notin> set (buf \<lparr>buf = [Some (0::nat), Some 1], cap = 2\<rparr>)"
proof -
  have f: "\<forall>n. ex_factory n \<noteq> (None, None)"
    by (simp add: ex_factory_def)
  have n: "NewChannelPool 1 2 (Some ex_factory) ex_world
     = Returns ((Some \<lparr>rconns = Some \<lparr>buf = [Some 0], cap = 2\<rparr>, factory = Some ex_factory\<rparr>, None),
                ex_world\<lparr>made := 1\<rparr>)"
    by (simp add: NewChannelPool_def fill.simps ex_world_def ex_factory_def)
  have r: "run [OpGet, OpGet, OpPut None, OpPut (Some 0), OpHandleClose (wrapRconn None), OpPut (Some 1)]
       \<lparr>rconns = Some \<lparr>buf = [Some 0], cap = 2\<rparr>, factory = Some ex_factory\<rparr> (ex_world\<lparr>made := 1\<rparr>)
     = Returns (\<lparr>rconns = Some \<lparr>buf = [Some 0, Some 1], cap = 2\<rparr>, factory = Some ex_factory\<rparr>,
                ex_world\<lparr>made := 2\<rparr>)"
    by (simp add: Get_def getRconns_def recv_def wrapRconn_def PoolRconn_Close_def put_def
        send_def RpcAble_Close_def ex_world_def ex_factory_def)
  have s: "rconns \<lparr>rconns = Some \<lparr>buf = [Some 0, Some 1], cap = 2\<rparr>, factory = Some ex_factory\<rparr>
             = Some \<lparr>buf = [Some 0, Some 1], cap = 2\<rparr>"
    by simp
  from C10_no_nil_idle [OF f n r s] n r show ?thesis by simp
qed

end
